theory Spec2Isabelle
  imports Complex_Main
begin

section \<open>Numeric values\<close>

text \<open>
  The program computes with double-precision numbers. Finite numbers are modelled by
  the reals (rounding and overflow are not modelled); the three non-finite values that
  the program can produce from finite ones, by dividing an array by zero and by starting
  the search at \<open>float('inf')\<close>, are kept as separate constructors. The theorems
  below are those that do not depend on rounding: they are about the structure of the
  loops, about runs in which no rounding occurs, or about any cost function at all.
\<close>

datatype npfloat = Finite real | PosInf | NegInf | NaN

datatype pyerror = ValueError | IndexError

fun np_neg :: "npfloat \<Rightarrow> npfloat" where
  "np_neg (Finite x) = Finite (- x)"
| "np_neg PosInf = NegInf"
| "np_neg NegInf = PosInf"
| "np_neg NaN = NaN"

fun np_add :: "npfloat \<Rightarrow> npfloat \<Rightarrow> npfloat" where
  "np_add (Finite x) (Finite y) = Finite (x + y)"
| "np_add NaN _ = NaN"
| "np_add _ NaN = NaN"
| "np_add PosInf NegInf = NaN"
| "np_add NegInf PosInf = NaN"
| "np_add PosInf _ = PosInf"
| "np_add NegInf _ = NegInf"
| "np_add _ PosInf = PosInf"
| "np_add _ NegInf = NegInf"

definition np_sub :: "npfloat \<Rightarrow> npfloat \<Rightarrow> npfloat" where
  "np_sub a b = np_add a (np_neg b)"

fun np_scale :: "real \<Rightarrow> npfloat \<Rightarrow> npfloat" where
  "np_scale c (Finite y) = Finite (c * y)"
| "np_scale c NaN = NaN"
| "np_scale c PosInf = (if c > 0 then PosInf else if c < 0 then NegInf else NaN)"
| "np_scale c NegInf = (if c > 0 then NegInf else if c < 0 then PosInf else NaN)"

fun np_less :: "npfloat \<Rightarrow> npfloat \<Rightarrow> bool" where
  "np_less (Finite x) (Finite y) = (x < y)"
| "np_less NaN _ = False"
| "np_less _ NaN = False"
| "np_less _ NegInf = False"
| "np_less PosInf _ = False"
| "np_less _ PosInf = True"
| "np_less NegInf _ = True"

definition np_divide :: "real \<Rightarrow> real \<Rightarrow> npfloat" where
  \<comment> \<open>Array division \<open>pi /= pi_sum\<close>: a zero divisor gives an infinity or a NaN, no exception.\<close>
  "np_divide x s =
     (if s = 0 then (if x > 0 then PosInf else if x < 0 then NegInf else NaN)
      else Finite (x / s))"

definition np_sum :: "npfloat list \<Rightarrow> npfloat" where
  "np_sum xs = foldl np_add (Finite 0) xs"

definition py_slice_to :: "'a list \<Rightarrow> int \<Rightarrow> 'a list" where
  \<comment> \<open>The slice \<open>xs[:j]\<close>: a negative bound counts from the end.\<close>
  "py_slice_to xs j =
     (if 0 \<le> j then take (nat j) xs else take (nat (int (length xs) + j)) xs)"

section \<open>The rate vectors and the stationary distribution\<close>

definition rates_step ::
  "real \<Rightarrow> real \<Rightarrow> bool \<Rightarrow> int \<Rightarrow> int \<Rightarrow> int \<Rightarrow> nat \<Rightarrow> real list \<times> real list \<Rightarrow> real list \<times> real list" where
  \<comment> \<open>One pass of the first loop, lines 10 to 23, at state \<open>i\<close>.\<close>
  "rates_step mu gamma warm_standby n m k i rates =
     (case rates of (birth_rates, death_rates) \<Rightarrow>
        let birth_rates' = birth_rates[i := real_of_int (min (int i) k) * gamma];
            working = n - int i
        in if warm_standby then (birth_rates', death_rates[i := real_of_int working * mu])
           else if working \<ge> m then (birth_rates', death_rates[i := real_of_int m * mu])
           else (birth_rates', death_rates[i := 0]))"

definition rate_vectors ::
  "real \<Rightarrow> real \<Rightarrow> bool \<Rightarrow> int \<Rightarrow> int \<Rightarrow> int \<Rightarrow> real list \<times> real list" where
  "rate_vectors mu gamma warm_standby n m k =
     (let states = nat (n + 1)
      in fold (rates_step mu gamma warm_standby n m k) [0..<states]
           (replicate states 0, replicate states 0))"

definition pi_step :: "real list \<Rightarrow> real list \<Rightarrow> nat \<Rightarrow> real list \<Rightarrow> real list" where
  \<comment> \<open>One pass of the second loop, lines 28 to 32, at state \<open>i \<ge> 1\<close>.\<close>
  "pi_step birth_rates death_rates i pi_arr =
     (if birth_rates ! i > 0
      then pi_arr[i := pi_arr ! (i - 1) * death_rates ! (i - 1) / birth_rates ! i]
      else pi_arr[i := 0])"

definition unnormalized_pi ::
  "real \<Rightarrow> real \<Rightarrow> bool \<Rightarrow> int \<Rightarrow> int \<Rightarrow> int \<Rightarrow> real list" where
  \<comment> \<open>The array \<open>pi\<close> of the source (here \<open>pi_arr\<close>) as it stands at line 33, for \<open>n \<ge> 0\<close>.\<close>
  "unnormalized_pi mu gamma warm_standby n m k =
     (let states = nat (n + 1);
          rates = rate_vectors mu gamma warm_standby n m k
      in fold (pi_step (fst rates) (snd rates)) [1..<states] ((replicate states 0)[0 := 1]))"

definition birth_death_stationary_distribution ::
  "real \<Rightarrow> real \<Rightarrow> bool \<Rightarrow> int \<Rightarrow> int \<Rightarrow> int \<Rightarrow> pyerror + npfloat list" where
  \<comment> \<open>\<open>np.zeros\<close> refuses a negative size; \<open>pi[0] = 1.0\<close> on the empty array is out of range.\<close>
  "birth_death_stationary_distribution mu gamma warm_standby n m k =
     (if n + 1 < 0 then Inl ValueError
      else if n + 1 = 0 then Inl IndexError
      else let pi_arr = unnormalized_pi mu gamma warm_standby n m k;
               pi_sum = sum_list pi_arr
           in Inr (map (\<lambda>x. np_divide x pi_sum) pi_arr))"

section \<open>Availability\<close>

definition system_availability ::
  "real \<Rightarrow> real \<Rightarrow> bool \<Rightarrow> int \<Rightarrow> int \<Rightarrow> int \<Rightarrow> pyerror + npfloat" where
  "system_availability mu gamma warm_standby n m k =
     (case birth_death_stationary_distribution mu gamma warm_standby n m k of
        Inl e \<Rightarrow> Inl e
      | Inr pi_arr \<Rightarrow>
          let max_failed_allowed = n - m
          in Inr (np_sum (py_slice_to pi_arr (max_failed_allowed + 1))))"

section \<open>The search for the cheapest configuration\<close>

type_synonym opt_state = "int option \<times> int option \<times> npfloat"

definition config_cost ::
  "real \<Rightarrow> real \<Rightarrow> bool \<Rightarrow> int \<Rightarrow> real \<Rightarrow> real \<Rightarrow> real \<Rightarrow> int \<Rightarrow> int \<Rightarrow> pyerror + npfloat" where
  \<comment> \<open>Lines 56 and 57: the cost of the configuration \<open>(n, k)\<close>.\<close>
  "config_cost mu gamma warm_standby m component_cost repairman_cost downtime_cost n k =
     (case system_availability mu gamma warm_standby n m k of
        Inl e \<Rightarrow> Inl e
      | Inr availability \<Rightarrow>
          Inr (np_add (Finite (component_cost * real_of_int n + repairman_cost * real_of_int k))
                 (np_scale downtime_cost (np_sub (Finite 1) availability))))"

definition opt_body ::
  "(int \<Rightarrow> int \<Rightarrow> pyerror + npfloat) \<Rightarrow> int \<Rightarrow> int \<Rightarrow> int \<Rightarrow> opt_state \<Rightarrow> pyerror + opt_state" where
  \<comment> \<open>The body of the inner loop, lines 53 to 62; the state is \<open>(best_n, best_k, min_cost)\<close>
     and \<open>cost n k\<close> stands for what lines 56 and 57 compute.\<close>
  "opt_body cost m n k st =
     (if m > n then Inr st
      else case cost n k of
        Inl e \<Rightarrow> Inl e
      | Inr c \<Rightarrow>
          if np_less c (snd (snd st)) then Inr (Some n, Some k, c) else Inr st)"

fun opt_inner ::
  "(int \<Rightarrow> int \<Rightarrow> opt_state \<Rightarrow> pyerror + opt_state) \<Rightarrow> int \<Rightarrow> int list \<Rightarrow> opt_state \<Rightarrow> pyerror + opt_state" where
  "opt_inner body n [] st = Inr st"
| "opt_inner body n (k # ks) st =
     (case body n k st of Inl e \<Rightarrow> Inl e | Inr st' \<Rightarrow> opt_inner body n ks st')"

fun opt_outer ::
  "(int \<Rightarrow> int \<Rightarrow> opt_state \<Rightarrow> pyerror + opt_state) \<Rightarrow> int list \<Rightarrow> int list \<Rightarrow> opt_state \<Rightarrow> pyerror + opt_state" where
  "opt_outer body [] k_range st = Inr st"
| "opt_outer body (n # ns) k_range st =
     (case opt_inner body n k_range st of Inl e \<Rightarrow> Inl e | Inr st' \<Rightarrow> opt_outer body ns k_range st')"

definition optimize_with ::
  "(int \<Rightarrow> int \<Rightarrow> pyerror + npfloat) \<Rightarrow> int \<Rightarrow> int list \<Rightarrow> int list \<Rightarrow> pyerror + opt_state" where
  \<comment> \<open>Lines 48 to 64: the search, whatever the cost of a pair is.\<close>
  "optimize_with cost m n_range k_range =
     opt_outer (opt_body cost m) n_range k_range (None, None, PosInf)"

definition optimize_components_and_repairmen ::
  "real \<Rightarrow> real \<Rightarrow> bool \<Rightarrow> int \<Rightarrow> real \<Rightarrow> real \<Rightarrow> real \<Rightarrow> int list \<Rightarrow> int list \<Rightarrow> pyerror + opt_state" where
  "optimize_components_and_repairmen mu gamma warm_standby m component_cost repairman_cost
       downtime_cost n_range k_range =
     optimize_with
       (config_cost mu gamma warm_standby m component_cost repairman_cost downtime_cost)
       m n_range k_range"

section \<open>Closed forms of the two loops\<close>

text \<open>
  The definitions of this section are not part of the program: they say what the loops
  compute, entry by entry, and the lemmas below connect them with the loops.
\<close>

definition birth_rate :: "real \<Rightarrow> int \<Rightarrow> nat \<Rightarrow> real" where
  "birth_rate gamma k i = real_of_int (min (int i) k) * gamma"

definition death_rate :: "real \<Rightarrow> bool \<Rightarrow> int \<Rightarrow> int \<Rightarrow> nat \<Rightarrow> real" where
  "death_rate mu w n m i =
     (if w then real_of_int (n - int i) * mu
      else if n - int i \<ge> m then real_of_int m * mu else 0)"

fun pi_rec :: "(nat \<Rightarrow> real) \<Rightarrow> nat \<Rightarrow> real" where
  "pi_rec r 0 = 1"
| "pi_rec r (Suc i) = pi_rec r i * r i"

definition step_ratio :: "real list \<Rightarrow> real list \<Rightarrow> nat \<Rightarrow> real" where
  "step_ratio b d i = (if b ! Suc i > 0 then d ! i / b ! Suc i else 0)"

definition ratio :: "real \<Rightarrow> real \<Rightarrow> bool \<Rightarrow> int \<Rightarrow> int \<Rightarrow> int \<Rightarrow> nat \<Rightarrow> real" where
  "ratio mu gamma w n m k i =
     (if birth_rate gamma k (Suc i) > 0 then death_rate mu w n m i / birth_rate gamma k (Suc i) else 0)"

definition valid_parameters :: "real \<Rightarrow> real \<Rightarrow> int \<Rightarrow> int \<Rightarrow> int \<Rightarrow> bool" where
  \<comment> \<open>The input constraints of the parameters \<open>(mu, gamma, n, m, k)\<close>.\<close>
  "valid_parameters mu gamma n m k \<longleftrightarrow> 0 \<le> mu \<and> 0 \<le> gamma \<and> 1 \<le> n \<and> 1 \<le> m \<and> m \<le> n \<and> 1 \<le> k"

section \<open>The search as one pass over pairs\<close>

text \<open>
  Again not part of the program: the double loop seen as a single loop over the list of
  pairs it does not skip, the number a finite cost stands for, and the order of the pairs.
\<close>

fun run_pairs ::
  "(int \<Rightarrow> int \<Rightarrow> opt_state \<Rightarrow> pyerror + opt_state) \<Rightarrow> (int \<times> int) list \<Rightarrow> opt_state \<Rightarrow> pyerror + opt_state" where
  "run_pairs body [] st = Inr st"
| "run_pairs body (p # ps) st =
     (case body (fst p) (snd p) st of Inl e \<Rightarrow> Inl e | Inr st' \<Rightarrow> run_pairs body ps st')"

definition visited_pairs :: "int \<Rightarrow> int list \<Rightarrow> int list \<Rightarrow> (int \<times> int) list" where
  \<comment> \<open>The pairs \<open>(n, k)\<close> that the double loop does not skip, in the order it reaches them.\<close>
  "visited_pairs m n_range k_range = filter (\<lambda>p. \<not> m > fst p) (List.product n_range k_range)"



section \<open>The loops compute the closed forms\<close>

lemma rates_fold_length:
  "length (fst (fold (rates_step mu gamma w n m k) js (b, d))) = length b \<and>
   length (snd (fold (rates_step mu gamma w n m k) js (b, d))) = length d"
  by (induction js arbitrary: b d) (auto simp: rates_step_def Let_def)

lemma rates_step_eq:
  "rates_step mu gamma w n m k i (b, d) = (b[i := birth_rate gamma k i], d[i := death_rate mu w n m i])"
  by (simp add: rates_step_def birth_rate_def death_rate_def Let_def)

lemma rates_fold_upt:
  "j \<le> length b \<Longrightarrow> length d = length b \<Longrightarrow>
   fold (rates_step mu gamma w n m k) [0..<j] (b, d) =
     (map (birth_rate gamma k) [0..<j] @ drop j b, map (death_rate mu w n m) [0..<j] @ drop j d)"
proof (induction j)
  case 0
  then show ?case by simp
next
  case (Suc j)
  then have j: "j < length b" "j < length d" by simp_all
  have upd: "\<And>(xs::real list) (ys::real list) v. length xs = j \<Longrightarrow> j < length ys \<Longrightarrow>
      (xs @ drop j ys)[j := v] = xs @ [v] @ drop (Suc j) ys"
    by (simp add: list_update_append upd_conv_take_nth_drop Cons_nth_drop_Suc [symmetric])
  from Suc show ?case
    by (simp add: rates_step_eq upd j)
qed

lemma rate_vectors_eq:
  "rate_vectors mu gamma w n m k =
     (map (birth_rate gamma k) [0..<nat (n + 1)], map (death_rate mu w n m) [0..<nat (n + 1)])"
  by (simp add: rate_vectors_def rates_fold_upt Let_def)

lemma pi_fold_upt:
  "j < length p \<Longrightarrow> p ! 0 = 1 \<Longrightarrow>
   fold (pi_step b d) [1..<Suc j] p = map (pi_rec (step_ratio b d)) [0..<Suc j] @ drop (Suc j) p"
proof (induction j)
  case 0
  then show ?case
    by (cases p) simp_all
next
  case (Suc j)
  then have j: "j < length p" by simp
  let ?xs = "map (pi_rec (step_ratio b d)) [0..<Suc j]"
  have len: "length ?xs = Suc j" by simp
  have nth_j: "(?xs @ drop (Suc j) p) ! j = pi_rec (step_ratio b d) j"
    by (simp add: nth_append del: upt_Suc)
  have upd: "\<And>v. (?xs @ drop (Suc j) p)[Suc j := v] = ?xs @ [v] @ drop (Suc (Suc j)) p"
    using Suc.prems(1) len
    by (simp add: list_update_append Cons_nth_drop_Suc [symmetric] del: upt_Suc)
  have step: "pi_step b d (Suc j) (?xs @ drop (Suc j) p) =
      ?xs @ [pi_rec (step_ratio b d) (Suc j)] @ drop (Suc (Suc j)) p"
    unfolding pi_step_def using nth_j upd
    by (simp add: step_ratio_def del: upt_Suc)
  have "fold (pi_step b d) [1..<Suc (Suc j)] p =
      pi_step b d (Suc j) (fold (pi_step b d) [1..<Suc j] p)"
    by simp
  also have "\<dots> = pi_step b d (Suc j) (?xs @ drop (Suc j) p)"
    using Suc.IH [OF j Suc.prems(2)] by simp
  also have "\<dots> = map (pi_rec (step_ratio b d)) [0..<Suc (Suc j)] @ drop (Suc (Suc j)) p"
    using step by simp
  finally show ?case .
qed

lemma pi_rec_cong: "(\<And>j. j < i \<Longrightarrow> r j = s j) \<Longrightarrow> pi_rec r i = pi_rec s i"
  by (induction i) simp_all

lemma unnormalized_pi_eq:
  assumes "0 \<le> n"
  shows "unnormalized_pi mu gamma w n m k = map (pi_rec (ratio mu gamma w n m k)) [0..<nat (n + 1)]"
proof -
  obtain j where j: "nat (n + 1) = Suc j"
    using assms by (cases "nat (n + 1)") simp_all
  let ?b = "map (birth_rate gamma k) [0..<Suc j]"
  let ?d = "map (death_rate mu w n m) [0..<Suc j]"
  have "unnormalized_pi mu gamma w n m k =
      fold (pi_step ?b ?d) [1..<Suc j] ((replicate (Suc j) 0)[0 := 1])"
    by (simp add: unnormalized_pi_def rate_vectors_eq j Let_def del: upt_Suc replicate_Suc)
  also have "\<dots> = map (pi_rec (step_ratio ?b ?d)) [0..<Suc j]"
    by (subst pi_fold_upt) (simp_all del: upt_Suc)
  also have "\<dots> = map (pi_rec (ratio mu gamma w n m k)) [0..<Suc j]"
  proof (rule map_cong [OF refl])
    fix i assume "i \<in> set [0..<Suc j]"
    then have i: "i < Suc j" by auto
    show "pi_rec (step_ratio ?b ?d) i = pi_rec (ratio mu gamma w n m k) i"
    proof (rule pi_rec_cong)
      fix l assume "l < i"
      with i have l: "l < Suc j" "Suc l < Suc j" by simp_all
      show "step_ratio ?b ?d l = ratio mu gamma w n m k l"
        unfolding step_ratio_def ratio_def
        using l by (simp only: nth_map_upt diff_zero add_0 if_True)
    qed
  qed
  finally show ?thesis using j by simp
qed

section \<open>The normalising sum for valid input\<close>

lemma pi_rec_nonneg: "(\<And>j. j < i \<Longrightarrow> 0 \<le> r j) \<Longrightarrow> 0 \<le> pi_rec r i"
  by (induction i) simp_all

lemma death_rate_nonneg: "0 \<le> mu \<Longrightarrow> 0 \<le> m \<Longrightarrow> int i \<le> n \<Longrightarrow> 0 \<le> death_rate mu w n m i"
  by (simp add: death_rate_def)

lemma ratio_nonneg: "0 \<le> mu \<Longrightarrow> 0 \<le> m \<Longrightarrow> int i \<le> n \<Longrightarrow> 0 \<le> ratio mu gamma w n m k i"
  by (simp add: ratio_def death_rate_nonneg)

lemma unnormalized_nonneg:
  assumes "0 \<le> mu" "0 \<le> m" "int i \<le> n"
  shows "0 \<le> pi_rec (ratio mu gamma w n m k) i"
  using assms by (intro pi_rec_nonneg ratio_nonneg) simp_all

lemma sum_list_unnormalized:
  "0 \<le> n \<Longrightarrow> sum_list (unnormalized_pi mu gamma w n m k) =
     (\<Sum>i<nat (n + 1). pi_rec (ratio mu gamma w n m k) i)"
  by (simp add: unnormalized_pi_eq interv_sum_list_conv_sum_set_nat atLeast0LessThan del: upt_Suc)

lemma sum_unnormalized_ge_1:
  assumes "0 \<le> mu" "0 \<le> m" "0 \<le> n"
  shows "1 \<le> sum_list (unnormalized_pi mu gamma w n m k)"
proof -
  let ?P = "pi_rec (ratio mu gamma w n m k)"
  have "?P 0 \<le> (\<Sum>i<nat (n + 1). ?P i)"
  proof (rule member_le_sum)
    show "0 \<in> {..<nat (n + 1)}" using assms by simp
    show "\<And>x. x \<in> {..<nat (n + 1)} - {0} \<Longrightarrow> 0 \<le> ?P x"
      using assms by (intro unnormalized_nonneg) auto
  qed simp
  then show ?thesis using assms by (simp add: sum_list_unnormalized)
qed

lemma np_divide_map:
  "s \<noteq> 0 \<Longrightarrow> map (\<lambda>x. np_divide x s) xs = map Finite (map (\<lambda>x. x / s) xs)"
  by (simp add: np_divide_def)

lemma stationary_eq:
  assumes "0 \<le> mu" "0 \<le> m" "0 \<le> n"
  shows "birth_death_stationary_distribution mu gamma w n m k =
     Inr (map Finite (map (\<lambda>x. x / sum_list (unnormalized_pi mu gamma w n m k))
        (unnormalized_pi mu gamma w n m k)))"
proof -
  have "sum_list (unnormalized_pi mu gamma w n m k) \<noteq> 0"
    using sum_unnormalized_ge_1 [OF assms, of gamma w k] by simp
  then show ?thesis
    using assms(3) by (simp add: birth_death_stationary_distribution_def Let_def np_divide_map)
qed

lemma sum_list_divide: "sum_list (map (\<lambda>x. x / s) xs) = sum_list xs / (s::real)"
  by (induction xs) (simp_all add: add_divide_distrib)

section \<open>The recurrence and the case without repair\<close>

lemma length_unnormalized: "0 \<le> n \<Longrightarrow> length (unnormalized_pi mu gamma w n m k) = nat n + 1"
  by (simp add: unnormalized_pi_eq nat_add_distrib del: upt_Suc)

lemma nth_unnormalized:
  "0 \<le> n \<Longrightarrow> i \<le> nat n \<Longrightarrow>
   unnormalized_pi mu gamma w n m k ! i = pi_rec (ratio mu gamma w n m k) i"
  by (simp add: unnormalized_pi_eq nat_add_distrib del: upt_Suc)

lemma nth_rate_vectors:
  "0 \<le> n \<Longrightarrow> i \<le> nat n \<Longrightarrow>
   fst (rate_vectors mu gamma w n m k) ! i = birth_rate gamma k i \<and>
   snd (rate_vectors mu gamma w n m k) ! i = death_rate mu w n m i"
  by (simp add: rate_vectors_eq nat_add_distrib del: upt_Suc)

lemma pi_rec_zero: "r i = 0 \<Longrightarrow> i < j \<Longrightarrow> pi_rec r j = 0"
proof (induction j)
  case 0
  then show ?case by simp
next
  case (Suc j)
  then show ?case by (cases "i = j") simp_all
qed


text \<open>
  Claim C9. For every valid input with repair rate 0 (and any failure rate, standby mode,
  \<open>m\<close> and \<open>k\<close>) the distribution returned is \<open>pi[0] = 1\<close> and \<open>pi[i] = 0\<close> for
  every \<open>i \<ge> 1\<close>.
\<close>

theorem no_repair_collapses_to_state_zero:
  assumes "valid_parameters mu 0 n m k"
  shows "birth_death_stationary_distribution mu 0 warm_standby n m k =
           Inr (Finite 1 # replicate (nat n) (Finite 0))"
proof -
  from assms have v: "0 \<le> mu" "0 \<le> m" "0 \<le> n"
    by (simp_all add: valid_parameters_def)
  let ?P = "pi_rec (ratio mu 0 warm_standby n m k)"
  have r: "ratio mu 0 warm_standby n m k i = 0" for i
    by (simp add: ratio_def birth_rate_def)
  have P: "?P (Suc i) = 0" for i
    by (simp add: r)
  have "nat (n + 1) = Suc (nat n)" using v(3) by simp
  then have u: "unnormalized_pi mu 0 warm_standby n m k = 1 # replicate (nat n) 0"
    using v(3) by (simp add: unnormalized_pi_eq map_upt_Suc r map_replicate_const del: upt_Suc)
  show ?thesis
    unfolding stationary_eq [OF v] u by (simp add: sum_list_replicate)
qed

theorem no_repair_collapses_to_state_zero_witness:
  "valid_parameters 3 0 2 1 1 \<and>
   birth_death_stationary_distribution 3 0 False 2 1 1 = Inr [Finite 1, Finite 0, Finite 0]"
proof -
  have v: "valid_parameters 3 0 2 1 1" by (simp add: valid_parameters_def)
  have "replicate (nat 2) (Finite 0) = [Finite 0, Finite 0]" by (simp add: numeral_2_eq_2)
  then show ?thesis
    using v no_repair_collapses_to_state_zero [OF v, of False] by simp
qed



section \<open>The normalization is not guarded\<close>

text \<open>
  Claim C6 says that a zero sum is reported as an error. The program has no such branch:
  with failure rate \<open>-1\<close>, repair rate \<open>1\<close>, one component and one repair unit the
  unnormalized vector is \<open>[1, -1]\<close>, its sum is 0, and the division is carried out.
\<close>

theorem zero_sum_is_divided_counterexample:
  "sum_list (unnormalized_pi (-1) 1 True 1 1 1) = 0 \<and>
   birth_death_stationary_distribution (-1) 1 True 1 1 1 = Inr [PosInf, NegInf]"
  by code_simp

text \<open>
  Claim C6, amended. The normalization is not guarded: whenever the arrays can be built
  (\<open>n \<ge> 0\<close>) and the unnormalized sum is exactly zero, the division is carried out all the
  same, and the function returns, without any error, a vector of \<open>n + 1\<close> entries none of
  which is a finite number (each is an infinity or a NaN).
\<close>

theorem zero_sum_gives_non_finite_vector:
  assumes "0 \<le> n" and "sum_list (unnormalized_pi mu gamma warm_standby n m k) = 0"
  shows "\<exists>xs. birth_death_stationary_distribution mu gamma warm_standby n m k = Inr xs
           \<and> length xs = nat n + 1 \<and> (\<forall>x\<in>set xs. x = PosInf \<or> x = NegInf \<or> x = NaN)"
proof -
  let ?u = "unnormalized_pi mu gamma warm_standby n m k"
  let ?xs = "map (\<lambda>x. np_divide x 0) ?u"
  have "birth_death_stationary_distribution mu gamma warm_standby n m k = Inr ?xs"
    using assms by (simp add: birth_death_stationary_distribution_def Let_def)
  moreover have "length ?xs = nat n + 1"
    using assms(1) by (simp add: length_unnormalized)
  moreover have "\<forall>x\<in>set ?xs. x = PosInf \<or> x = NegInf \<or> x = NaN"
    by (auto simp: np_divide_def)
  ultimately show ?thesis by blast
qed

theorem zero_sum_gives_non_finite_vector_witness:
  "(0::int) \<le> 2 \<and> sum_list (unnormalized_pi (-1) 1 True 2 1 2) = 0 \<and>
   (\<exists>xs. birth_death_stationary_distribution (-1) 1 True 2 1 2 = Inr xs
           \<and> length xs = nat 2 + 1 \<and> (\<forall>x\<in>set xs. x = PosInf \<or> x = NegInf \<or> x = NaN))
   \<and> birth_death_stationary_distribution (-1) 1 True 2 1 2 = Inr [PosInf, NegInf, PosInf]"
proof -
  have h: "(0::int) \<le> 2" by simp
  have s: "sum_list (unnormalized_pi (-1) 1 True 2 1 2) = 0" by code_simp
  have d: "birth_death_stationary_distribution (-1) 1 True 2 1 2 = Inr [PosInf, NegInf, PosInf]"
    by code_simp
  show ?thesis
    using h s d zero_sum_gives_non_finite_vector [OF h s]
    by blast
qed

section \<open>Valid inputs whose unnormalized entries leave the range of doubles\<close>

text \<open>
  Claim C1 fails in the program at the valid input \<open>mu = 2^600\<close>, \<open>gamma = 2^-600\<close>,
  \<open>n = m = k = 1\<close>. The exact value of \<open>pi[1]\<close> before normalization is \<open>2^1200\<close>, which
  is beyond the largest double (below \<open>2^1024\<close>): the program holds infinity there, the sum
  is infinite, and \<open>inf / inf\<close> is NaN, so the vector returned is \<open>[0.0, nan]\<close> and not a
  probability vector.
\<close>

theorem one_component_entry_beyond_double_range:
  "valid_parameters (2 ^ 600) (1 / 2 ^ 600) 1 1 1 \<and>
   unnormalized_pi (2 ^ 600) (1 / 2 ^ 600) True 1 1 1 ! 1 = 2 ^ 1200 \<and>
   (2::real) ^ 1024 \<le> 2 ^ 1200"
proof -
  have "unnormalized_pi (2 ^ 600) (1 / 2 ^ 600) True 1 1 1 ! 1 =
      pi_rec (ratio (2 ^ 600) (1 / 2 ^ 600) True 1 1 1) 1"
    by (rule nth_unnormalized) simp_all
  also have "\<dots> = 2 ^ 1200"
    by (simp add: ratio_def birth_rate_def death_rate_def power_add [symmetric])
  finally show ?thesis
    by (simp add: valid_parameters_def)
qed

text \<open>
  Claim C10 fails in the program at the valid cold-standby input \<open>mu = 2^600\<close>,
  \<open>gamma = 2^-600\<close>, \<open>n = m = 2\<close>, \<open>k = 1\<close>. The exact value of \<open>pi[1]\<close> before
  normalization is \<open>2^1201\<close>, beyond the largest double, and the death rate of state 1 is 0:
  the program computes \<open>inf * 0.0\<close>, which is NaN, for \<open>pi[2]\<close>, where the claim has 0.
\<close>

theorem cold_entry_beyond_double_range:
  "valid_parameters (2 ^ 600) (1 / 2 ^ 600) 2 2 1 \<and>
   unnormalized_pi (2 ^ 600) (1 / 2 ^ 600) False 2 2 1 ! 1 = 2 ^ 1201 \<and>
   (2::real) ^ 1024 \<le> 2 ^ 1201 \<and>
   snd (rate_vectors (2 ^ 600) (1 / 2 ^ 600) False 2 2 1) ! 1 = 0 \<and>
   0 < fst (rate_vectors (2 ^ 600) (1 / 2 ^ 600) False 2 2 1) ! 2"
proof -
  have "unnormalized_pi (2 ^ 600) (1 / 2 ^ 600) False 2 2 1 ! 1 =
      pi_rec (ratio (2 ^ 600) (1 / 2 ^ 600) False 2 2 1) 1"
    by (rule nth_unnormalized) simp_all
  also have "\<dots> = 2 * 2 ^ 1200"
    by (simp add: ratio_def birth_rate_def death_rate_def power_add [symmetric])
  finally have u: "unnormalized_pi (2 ^ 600) (1 / 2 ^ 600) False 2 2 1 ! 1 = 2 ^ 1201"
    by simp
  have d: "snd (rate_vectors (2 ^ 600) (1 / 2 ^ 600) False 2 2 1) ! 1 = 0"
    using nth_rate_vectors [of 2 1 "2 ^ 600" "1 / 2 ^ 600" False 2 1]
    by (simp add: death_rate_def)
  have b: "0 < fst (rate_vectors (2 ^ 600) (1 / 2 ^ 600) False 2 2 1) ! 2"
    using nth_rate_vectors [of 2 2 "2 ^ 600" "1 / 2 ^ 600" False 2 1]
    by (simp add: birth_rate_def)
  show ?thesis
    using u d b by (simp add: valid_parameters_def)
qed

section \<open>Cold and warm standby\<close>




section \<open>The double loop as one pass over the visited pairs\<close>

lemma run_pairs_append:
  "run_pairs body (ps @ qs) st =
     (case run_pairs body ps st of Inl e \<Rightarrow> Inl e | Inr st' \<Rightarrow> run_pairs body qs st')"
  by (induction ps arbitrary: st) (simp_all split: sum.splits)

lemma opt_inner_run_pairs: "opt_inner body n ks st = run_pairs body (map (Pair n) ks) st"
  by (induction ks arbitrary: st) (simp_all split: sum.splits)

lemma opt_outer_run_pairs: "opt_outer body ns ks st = run_pairs body (List.product ns ks) st"
  by (induction ns arbitrary: st) (simp_all add: run_pairs_append opt_inner_run_pairs split: sum.splits)

lemma run_pairs_filter:
  assumes "\<And>p st. \<not> keep p \<Longrightarrow> body (fst p) (snd p) st = Inr st"
  shows "run_pairs body ps st = run_pairs body (filter keep ps) st"
  by (induction ps arbitrary: st) (simp_all add: assms split: sum.splits)

lemma optimize_run_pairs:
  "optimize_with cost m n_range k_range =
     run_pairs (opt_body cost m) (visited_pairs m n_range k_range) (None, None, PosInf)"
  unfolding optimize_with_def opt_outer_run_pairs visited_pairs_def
  by (rule run_pairs_filter) (simp add: opt_body_def)






text \<open>
  Claim C5 says that, when no pair is feasible, no sentinel numeric value is returned. The
  program returns the triple \<open>(best_n, best_k, min_cost)\<close> as initialised: with \<open>m = 2\<close>
  and \<open>n_range = [1]\<close> the third component is the initial \<open>float('inf')\<close>.
\<close>

theorem infeasible_search_returns_infinite_cost_counterexample:
  "optimize_components_and_repairmen 1 1 True 2 1 1 1 [1] [1] = Inr (None, None, PosInf)"
  by code_simp

text \<open>
  Claim C5, amended. When \<open>n_range\<close> holds no \<open>n\<close> with \<open>m \<le> n\<close>, the optimizer raises no
  error and returns \<open>best_n = None\<close> and \<open>best_k = None\<close> (never a zero or any other number
  for them), together with \<open>min_cost\<close> left at its initial value, positive infinity.
\<close>

theorem infeasible_search_returns_none_none_infinity:
  assumes "\<forall>n\<in>set n_range. n < m"
  shows "optimize_components_and_repairmen mu gamma warm_standby m component_cost repairman_cost
           downtime_cost n_range k_range = Inr (None, None, PosInf)"
proof -
  have "visited_pairs m n_range k_range = []"
    using assms by (auto simp: visited_pairs_def filter_empty_conv)
  then show ?thesis
    by (simp add: optimize_components_and_repairmen_def optimize_run_pairs)
qed

theorem infeasible_search_returns_none_none_infinity_witness:
  "(1::int) < 3 \<and> (2::int) < 3 \<and>
   optimize_components_and_repairmen (1 / 100) (1 / 10) False 3 5 10 1000 [1, 2] [1, 2, 3] =
     Inr (None, None, PosInf)"
proof -
  have h: "\<forall>n\<in>set [1, 2 :: int]. n < 3" by simp
  show ?thesis
    using infeasible_search_returns_none_none_infinity [OF h] by simp
qed

end
